theory Spec2Isabelle
  imports Main "HOL-Library.Word" "HOL-Library.Sublist"
begin

unbundle bit_operations_syntax

section \<open>Values of the Go program\<close>

text \<open>
  The controller is \<^verbatim>\<open>controllers/nginx/pkg/cmd/controller/nginx.go\<close>. Go's \<^verbatim>\<open>int\<close> is
  taken at its 64-bit width: arithmetic wraps around, \<^verbatim>\<open>>>\<close> on it is the arithmetic
  shift (\<open>signed_drop_bit\<close>) and comparisons are signed. A \<^verbatim>\<open>[]byte\<close> and a Go string
  are both sequences of 8-bit characters.
\<close>

type_synonym go_int = "64 word"
type_synonym bytes = string

text \<open>
  Go errors, by their dynamic type: \<^verbatim>\<open>*os.PathError\<close> is what \<^verbatim>\<open>os\<close> and
  \<^verbatim>\<open>ioutil\<close> file operations return, \<^verbatim>\<open>*exec.ExitError\<close> a command that exited
  non-zero, and \<^verbatim>\<open>errors.New\<close> / \<^verbatim>\<open>fmt.Errorf\<close> build an error that is only a
  string. \<open>error_text\<close> is the method \<^verbatim>\<open>Error()\<close>, which \<^verbatim>\<open>%v\<close> prints.
\<close>

datatype go_error = PathError string | ExitError string | ErrorString string

fun error_text :: "go_error \<Rightarrow> string" where
  "error_text (PathError m) = m"
| "error_text (ExitError m) = m"
| "error_text (ErrorString m) = m"

definition cfgPath :: string where
  "cfgPath = ''/etc/nginx/nginx.conf''"

section \<open>The file system and the processes, as explicit state\<close>

text \<open>
  The state outside the controller is the content of the files and the list of the
  effects issued so far: files created, written and removed, commands run. Reading a
  file leaves no entry. Logging through \<^verbatim>\<open>glog\<close> and closing a file handle change
  neither and are left out.
\<close>

datatype action =
    ACreate string
  | AWrite string bytes
  | ARemove string
  | AExec string "string list"

record world =
  files :: "string \<rightharpoonup> bytes"
  trace :: "action list"

text \<open>
  What the operating system answers during one call is an input of the model:
  \<^item> \<open>open_err\<close>: \<^verbatim>\<open>os.Open\<close> fails although the file exists;
  \<^item> \<open>read_err\<close>: \<^verbatim>\<open>ioutil.ReadAll\<close> fails;
  \<^item> \<open>temp_result\<close>: \<^verbatim>\<open>ioutil.TempFile\<close> fails, or picks a directory (with its
    separator) and a random suffix;
  \<^item> \<open>write_result\<close>: \<^verbatim>\<open>ioutil.WriteFile\<close> to a path succeeds (\<open>None\<close>), or fails
    with a message and leaves some content (or no file) behind;
  \<^item> \<open>remove_err\<close>: \<^verbatim>\<open>os.Remove\<close> fails;
  \<^item> \<open>diff\<close>: the package's helper \<^verbatim>\<open>diff(b1, b2)\<close>, defined in another file of the
    package, taken as a parameter;
  \<^item> \<open>run_cmd\<close>: the combined output and the error of running a binary with arguments
    on the current files (\<^verbatim>\<open>exec.Command(...).CombinedOutput()\<close>);
  \<^item> \<open>sysctlSomaxconn\<close>: the value of the package's helper of that name.
\<close>

record env =
  open_err :: "string option"
  read_err :: "string option"
  temp_result :: "string + string \<times> string"
  write_result :: "string \<Rightarrow> (string \<times> bytes option) option"
  remove_err :: "string option"
  diff :: "bytes \<Rightarrow> bytes \<Rightarrow> go_error + bytes"
  run_cmd :: "string \<Rightarrow> string list \<Rightarrow> (string \<rightharpoonup> bytes) \<Rightarrow> bytes \<times> go_error option"
  sysctlSomaxconn :: go_int

text \<open>\<^verbatim>\<open>os.Open(path)\<close>: the handle is the path; a missing file cannot be opened.\<close>

definition os_Open :: "env \<Rightarrow> world \<Rightarrow> string \<Rightarrow> go_error + string" where
  "os_Open e w path =
     (case files w path of
        None \<Rightarrow> Inl (PathError (''open '' @ path @ '': no such file or directory''))
      | Some _ \<Rightarrow>
          (case open_err e of
             Some m \<Rightarrow> Inl (PathError m)
           | None \<Rightarrow> Inr path))"

definition ioutil_ReadAll :: "env \<Rightarrow> world \<Rightarrow> string \<Rightarrow> go_error + bytes" where
  "ioutil_ReadAll e w handle =
     (case read_err e of
        Some m \<Rightarrow> Inl (PathError m)
      | None \<Rightarrow>
          (case files w handle of
             None \<Rightarrow> Inr []
           | Some b \<Rightarrow> Inr b))"

text \<open>
  \<^verbatim>\<open>ioutil.TempFile("", prefix)\<close> creates a new, empty file whose name is the temporary
  directory, the prefix and a random suffix. It never opens a file that exists; a name
  that is taken counts as its failure.
\<close>

definition ioutil_TempFile :: "env \<Rightarrow> string \<Rightarrow> world \<Rightarrow> (go_error + string) \<times> world" where
  "ioutil_TempFile e pfx w =
     (case temp_result e of
        Inl m \<Rightarrow> (Inl (PathError m), w)
      | Inr (dir, sfx) \<Rightarrow>
          (let name = dir @ pfx @ sfx in
           (case files w name of
              Some _ \<Rightarrow> (Inl (PathError ''file exists''), w)
            | None \<Rightarrow>
                (Inr name,
                 w\<lparr>files := (files w)(name \<mapsto> []), trace := trace w @ [ACreate name]\<rparr>))))"

definition ioutil_WriteFile :: "env \<Rightarrow> string \<Rightarrow> bytes \<Rightarrow> world \<Rightarrow> go_error option \<times> world" where
  "ioutil_WriteFile e name data w =
     (case write_result e name of
        None \<Rightarrow>
          (None, w\<lparr>files := (files w)(name \<mapsto> data), trace := trace w @ [AWrite name data]\<rparr>)
      | Some (m, left) \<Rightarrow>
          (Some (PathError m),
           w\<lparr>files := (files w)(name := left), trace := trace w @ [AWrite name data]\<rparr>))"

text \<open>\<^verbatim>\<open>os.Remove(name)\<close>; both callers drop its error.\<close>

definition os_Remove :: "env \<Rightarrow> string \<Rightarrow> world \<Rightarrow> world" where
  "os_Remove e name w =
     (case remove_err e of
        None \<Rightarrow> w\<lparr>files := (files w)(name := None), trace := trace w @ [ARemove name]\<rparr>
      | Some _ \<Rightarrow> w\<lparr>trace := trace w @ [ARemove name]\<rparr>)"

text \<open>A command is its binary and its arguments; running it is logged.\<close>

definition CombinedOutput ::
  "env \<Rightarrow> string \<times> string list \<Rightarrow> world \<Rightarrow> (bytes \<times> go_error option) \<times> world" where
  "CombinedOutput e cmd w =
     (run_cmd e (fst cmd) (snd cmd) (files w),
      w\<lparr>trace := trace w @ [AExec (fst cmd) (snd cmd)]\<rparr>)"

section \<open>Configuration data\<close>

record ConfigMap =
  Data :: "string \<rightharpoonup> string"

typedecl Backend
typedecl SSLPassthroughBackend
typedecl Location

record Server =
  Hostname :: string

record ingress_Configuration =
  Backends :: "Backend list"
  PassthroughBackends :: "SSLPassthroughBackend list"
  Servers :: "Server list"
  TCPEndpoints :: "Location list"
  UPDEndpoints :: "Location list"

record Configuration =
  ServerNameHashBucketSize :: go_int
  ServerNameHashMaxSize :: go_int
  CustomHTTPErrors :: "go_int list"

record TemplateConfig =
  BacklogSize :: go_int
  BackendsT :: "Backend list"
  PassthrougBackends :: "SSLPassthroughBackend list"
  ServersT :: "Server list"
  TCPBackends :: "Location list"
  UDPBackends :: "Location list"
  HealthzURI :: string
  CustomErrors :: bool
  Cfg :: Configuration

text \<open>
  Modelled from the spec: the template type of the package \<^verbatim>\<open>pkg/template\<close> is not
  part of the file; the spec treats the renderer as a pure function
  \<^verbatim>\<open>render(state, options) -> bytes\<close>.
\<close>

type_synonym Template = "TemplateConfig \<Rightarrow> bytes"

record NGINXController =
  t :: Template
  binary :: string

section \<open>The controller\<close>

text \<open>\<^verbatim>\<open>nextPowerOf2\<close>, lines 261 to 271.\<close>

definition nextPowerOf2 :: "go_int \<Rightarrow> go_int" where
  "nextPowerOf2 v0 =
     (let v1 = v0 - 1;
          v2 = v1 OR signed_drop_bit 1 v1;
          v3 = v2 OR signed_drop_bit 2 v2;
          v4 = v3 OR signed_drop_bit 4 v3;
          v5 = v4 OR signed_drop_bit 8 v4;
          v6 = v5 OR signed_drop_bit 16 v5
      in v6 + 1)"

text \<open>\<^verbatim>\<open>Test\<close>, lines 122 to 124: the command \<^verbatim>\<open>nginx -t -c file\<close>.\<close>

definition Test :: "NGINXController \<Rightarrow> string \<Rightarrow> string \<times> string list" where
  "Test n file = (binary n, [''-t'', ''-c'', file])"

text \<open>\<^verbatim>\<open>isReloadRequired\<close>, lines 134 to 170.\<close>

definition isReloadRequired :: "NGINXController \<Rightarrow> env \<Rightarrow> bytes \<Rightarrow> world \<Rightarrow> bool \<times> world" where
  "isReloadRequired n e data w =
     (case os_Open e w cfgPath of
        Inl _ \<Rightarrow> (False, w)
      | Inr handle \<Rightarrow>
          (case ioutil_ReadAll e w handle of
             Inl _ \<Rightarrow> (False, w)
           | Inr src \<Rightarrow>
               if src \<noteq> data then
                 (case ioutil_TempFile e ''nginx-cfg-diff'' w of
                    (Inl _, w1) \<Rightarrow> (False, w1)
                  | (Inr tmpfile, w1) \<Rightarrow>
                      (case ioutil_WriteFile e tmpfile data w1 of
                         (Some _, w2) \<Rightarrow> (False, w2)
                       | (None, w2) \<Rightarrow>
                           (case diff e src data of
                              Inl _ \<Rightarrow> (True, w2)
                            | Inr diffOutput \<Rightarrow> (length diffOutput > 0, w2))))
               else (False, w)))"

text \<open>\<^verbatim>\<open>Reload\<close>, lines 108 to 119. A nil byte slice is the empty sequence.\<close>

definition Reload ::
  "NGINXController \<Rightarrow> env \<Rightarrow> bytes \<Rightarrow> world \<Rightarrow> (bytes \<times> go_error option) \<times> world" where
  "Reload n e data w =
     (case isReloadRequired n e data w of
        (False, w1) \<Rightarrow> (([], Some (ErrorString ''Reload not required'')), w1)
      | (True, w1) \<Rightarrow>
          (case ioutil_WriteFile e cfgPath data w1 of
             (Some err, w2) \<Rightarrow> (([], Some err), w2)
           | (None, w2) \<Rightarrow> CombinedOutput e (binary n, [''-s'', ''reload'']) w2))"

text \<open>The text of the error that \<^verbatim>\<open>testTemplate\<close> formats, lines 194 to 199.\<close>

definition banner :: string where
  "banner = replicate 79 (CHR ''-'')"

definition invalid_text :: "go_error \<Rightarrow> bytes \<Rightarrow> string" where
  "invalid_text err out =
     [CHR 0x0A] @ banner @ [CHR 0x0A] @ ''Error: '' @ error_text err @ [CHR 0x0A]
       @ out @ [CHR 0x0A] @ banner @ [CHR 0x0A]"

text \<open>
  \<^verbatim>\<open>testTemplate\<close>, lines 184 to 205. The error of the write to the temporary file is
  dropped, as in the source.
\<close>

definition testTemplate :: "NGINXController \<Rightarrow> env \<Rightarrow> bytes \<Rightarrow> world \<Rightarrow> go_error option \<times> world" where
  "testTemplate n e cfg w =
     (case ioutil_TempFile e ''nginx-cfg'' w of
        (Inl err, w1) \<Rightarrow> (Some err, w1)
      | (Inr tmpfile, w1) \<Rightarrow>
          (let w2 = snd (ioutil_WriteFile e tmpfile cfg w1);
               ((out, err), w3) = CombinedOutput e (Test n tmpfile) w2
           in (case err of
                 Some er \<Rightarrow> (Some (ErrorString (invalid_text er out)), w3)
               | None \<Rightarrow> (None, os_Remove e tmpfile w3))))"

text \<open>
  The loop of \<^verbatim>\<open>OnUpdate\<close>, lines 216 to 223, on the pair
  \<^verbatim>\<open>(longestName, serverNames)\<close>.
\<close>

fun hostnameSizes :: "Server list \<Rightarrow> go_int \<times> go_int \<Rightarrow> go_int \<times> go_int" where
  "hostnameSizes [] (longestName, serverNames) = (longestName, serverNames)"
| "hostnameSizes (srv # rest) (longestName, serverNames) =
     hostnameSizes rest
       (if longestName <s of_nat (length (Hostname srv))
        then of_nat (length (Hostname srv)) else longestName,
        serverNames + of_nat (length (Hostname srv)))"

text \<open>
  The value that \<^verbatim>\<open>OnUpdate\<close> hands to the template, lines 216 to 255.
  \<^verbatim>\<open>ReadConfig\<close> belongs to the package \<^verbatim>\<open>pkg/template\<close> and is a parameter.
\<close>

definition OnUpdate_config ::
  "(ConfigMap \<Rightarrow> Configuration) \<Rightarrow> env \<Rightarrow> ConfigMap \<Rightarrow> ingress_Configuration \<Rightarrow> TemplateConfig" where
  "OnUpdate_config ReadConfig e cmap ingressCfg =
     (let (longestName, serverNames) = hostnameSizes (Servers ingressCfg) (0, 0);
          cfg = ReadConfig cmap;
          nameHashBucketSize = nextPowerOf2 longestName;
          cfg1 = (if ServerNameHashBucketSize cfg <s nameHashBucketSize
                  then cfg\<lparr>ServerNameHashBucketSize := nameHashBucketSize\<rparr> else cfg);
          serverNameHashMaxSize = nextPowerOf2 serverNames;
          cfg2 = (if ServerNameHashMaxSize cfg1 <s serverNameHashMaxSize
                  then cfg1\<lparr>ServerNameHashMaxSize := serverNameHashMaxSize\<rparr> else cfg1)
      in \<lparr>BacklogSize = sysctlSomaxconn e,
          BackendsT = Backends ingressCfg,
          PassthrougBackends = PassthroughBackends ingressCfg,
          ServersT = Servers ingressCfg,
          TCPBackends = TCPEndpoints ingressCfg,
          UDPBackends = UPDEndpoints ingressCfg,
          HealthzURI = ''/healthz'',
          CustomErrors = (length (CustomHTTPErrors cfg2) > 0),
          Cfg = cfg2\<rparr>)"

text \<open>
  Modelled from the spec: \<^verbatim>\<open>Template.Write\<close> of the package \<^verbatim>\<open>pkg/template\<close>, which
  \<^verbatim>\<open>OnUpdate\<close> calls with the validator as a callback, is not part of the file. The
  spec's cycle renders the candidate, validates it, and on an invalid candidate returns
  the validator's error and no bytes.
\<close>

definition Write ::
  "Template \<Rightarrow> TemplateConfig \<Rightarrow> (bytes \<Rightarrow> world \<Rightarrow> go_error option \<times> world) \<Rightarrow> world
     \<Rightarrow> (bytes \<times> go_error option) \<times> world" where
  "Write tpl conf isValidTemplate w =
     (let candidate = tpl conf in
      (case isValidTemplate candidate w of
         (Some err, w1) \<Rightarrow> (([], Some err), w1)
       | (None, w1) \<Rightarrow> ((candidate, None), w1)))"

text \<open>\<^verbatim>\<open>OnUpdate\<close>, lines 215 to 257.\<close>

definition OnUpdate ::
  "(ConfigMap \<Rightarrow> Configuration) \<Rightarrow> NGINXController \<Rightarrow> env \<Rightarrow> ConfigMap \<Rightarrow> ingress_Configuration
     \<Rightarrow> world \<Rightarrow> (bytes \<times> go_error option) \<times> world" where
  "OnUpdate ReadConfig n e cmap ingressCfg w =
     Write (t n) (OnUpdate_config ReadConfig e cmap ingressCfg) (testTemplate n e) w"

section \<open>Notions of the specification\<close>

text \<open>\<open>r\<close> is the smallest power of two that is at least \<open>n\<close>.\<close>

definition least_pow2_ge :: "int \<Rightarrow> int \<Rightarrow> bool" where
  "least_pow2_ge n r \<longleftrightarrow>
     (\<exists>k::nat. r = 2 ^ k) \<and> n \<le> r \<and> (\<forall>j::nat. n \<le> 2 ^ j \<longrightarrow> r \<le> 2 ^ j)"

text \<open>The byte length of the longest hostname, and the sum of all byte lengths.\<close>

fun longest_hostname :: "Server list \<Rightarrow> nat" where
  "longest_hostname [] = 0"
| "longest_hostname (srv # rest) = max (length (Hostname srv)) (longest_hostname rest)"

definition hostname_bytes :: "Server list \<Rightarrow> nat" where
  "hostname_bytes servers = sum_list (map (\<lambda>srv. length (Hostname srv)) servers)"

text \<open>Whether an effect creates, writes or removes the file at a path.\<close>

fun touches :: "string \<Rightarrow> action \<Rightarrow> bool" where
  "touches p (ACreate q) = (p = q)"
| "touches p (AWrite q b) = (p = q)"
| "touches p (ARemove q) = (p = q)"
| "touches p (AExec b args) = False"

section \<open>Concrete inputs for the examples\<close>

text \<open>
  A controller, a state with a given committed configuration (or none) and nothing else,
  five environments (every call succeeds; no temporary file can be created; no file can
  be written; the diff helper fails; the checker rejects what it is given), an empty
  config map, two base configurations, and the desired state with given hostnames and
  nothing else.
\<close>

definition nginx0 :: NGINXController where
  "nginx0 = \<lparr>t = (\<lambda>conf. ''events {}''), binary = ''/usr/sbin/nginx''\<rparr>"

definition world_of :: "bytes option \<Rightarrow> world" where
  "world_of committed = \<lparr>files = (\<lambda>p. if p = cfgPath then committed else None), trace = []\<rparr>"

definition env_ok :: env where
  "env_ok =
     \<lparr>open_err = None, read_err = None,
      temp_result = Inr (''/tmp/'', ''123456789''),
      write_result = (\<lambda>p. None), remove_err = None,
      diff = (\<lambda>a b. Inr (if a = b then [] else ''--- +++'')),
      run_cmd = (\<lambda>b args fs. ([], None)),
      sysctlSomaxconn = 128\<rparr>"

definition cmap0 :: ConfigMap where
  "cmap0 = \<lparr>Data = (\<lambda>k. None)\<rparr>"

definition readConfig0 :: "ConfigMap \<Rightarrow> Configuration" where
  "readConfig0 cmap =
     \<lparr>ServerNameHashBucketSize = 0, ServerNameHashMaxSize = 0, CustomHTTPErrors = []\<rparr>"

definition readConfig64 :: "ConfigMap \<Rightarrow> Configuration" where
  "readConfig64 cmap =
     \<lparr>ServerNameHashBucketSize = 64, ServerNameHashMaxSize = 32, CustomHTTPErrors = []\<rparr>"

definition ingress_of :: "string list \<Rightarrow> ingress_Configuration" where
  "ingress_of hostnames =
     \<lparr>Backends = [], PassthroughBackends = [],
      Servers = map (\<lambda>h. \<lparr>Hostname = h\<rparr>) hostnames,
      TCPEndpoints = [], UPDEndpoints = []\<rparr>"

definition env_no_temp :: env where
  "env_no_temp = env_ok\<lparr>temp_result := Inl ''no space left on device''\<rparr>"

definition env_no_write :: env where
  "env_no_write = env_ok\<lparr>write_result := (\<lambda>p. Some (''no space left on device'', Some []))\<rparr>"

definition env_diff_fails :: env where
  "env_diff_fails = env_ok\<lparr>diff := (\<lambda>a b. Inl (ErrorString ''exec: diff not found''))\<rparr>"

definition env_rejecting :: env where
  "env_rejecting =
     env_ok\<lparr>run_cmd := (\<lambda>b args fs. (''nginx: [emerg] unexpected end of file'',
                                        Some (ExitError ''exit status 1'')))\<rparr>"

section \<open>The power-of-two ceiling\<close>

lemma smear_step:
  fixes x m :: go_int
  assumes lo: "\<forall>j\<ge>32. \<not> bit m j"
    and inv: "\<forall>j. bit x j \<longleftrightarrow> (\<exists>i<k. bit m (j + i))"
  shows "\<forall>j. bit (x OR signed_drop_bit k x) j \<longleftrightarrow> (\<exists>i<2 * k. bit m (j + i))"
proof
  fix j
  have hi: "\<not> bit x j'" if "32 \<le> j'" for j'
    using inv lo that by auto
  have sdb: "bit (signed_drop_bit k x) j \<longleftrightarrow> bit x (k + j)"
  proof (cases "64 - k \<le> j \<and> j < 64")
    case True
    then have "32 \<le> k + j" by arith
    then show ?thesis
      using True hi [of 63] hi [of "k + j"] by (simp add: bit_signed_drop_bit_iff)
  next
    case False
    then show ?thesis by (auto simp add: bit_signed_drop_bit_iff)
  qed
  have "(\<exists>i<2 * k. bit m (j + i)) \<longleftrightarrow> (\<exists>i<k. bit m (j + i)) \<or> (\<exists>i<k. bit m (k + j + i))"
  proof
    assume "\<exists>i<2 * k. bit m (j + i)"
    then obtain i where i: "i < 2 * k" "bit m (j + i)" by blast
    show "(\<exists>i<k. bit m (j + i)) \<or> (\<exists>i<k. bit m (k + j + i))"
    proof (cases "i < k")
      case True
      with i show ?thesis by blast
    next
      case False
      then have "i - k < k" "k + j + (i - k) = j + i" using i by auto
      with i show ?thesis by metis
    qed
  next
    assume "(\<exists>i<k. bit m (j + i)) \<or> (\<exists>i<k. bit m (k + j + i))"
    then show "\<exists>i<2 * k. bit m (j + i)"
    proof
      assume "\<exists>i<k. bit m (j + i)"
      then obtain i where "i < k" "bit m (j + i)" by blast
      then have "i < 2 * k" by simp
      with \<open>bit m (j + i)\<close> show ?thesis by blast
    next
      assume "\<exists>i<k. bit m (k + j + i)"
      then obtain i where i: "i < k" "bit m (k + j + i)" by blast
      then have "k + i < 2 * k" "j + (k + i) = k + j + i" by auto
      with i show ?thesis by metis
    qed
  qed
  then show "bit (x OR signed_drop_bit k x) j \<longleftrightarrow> (\<exists>i<2 * k. bit m (j + i))"
    using inv sdb by (simp add: bit_or_iff)
qed

lemma smear_bits:
  fixes m :: go_int
  assumes lo: "\<forall>j\<ge>32. \<not> bit m j"
  shows "bit (nextPowerOf2 (m + 1) - 1) j \<longleftrightarrow> (\<exists>i. bit m (j + i))"
proof -
  define v2 where "v2 = m OR signed_drop_bit 1 m"
  define v3 where "v3 = v2 OR signed_drop_bit 2 v2"
  define v4 where "v4 = v3 OR signed_drop_bit 4 v3"
  define v5 where "v5 = v4 OR signed_drop_bit 8 v4"
  define v6 where "v6 = v5 OR signed_drop_bit 16 v5"
  have 1: "\<forall>j. bit m j \<longleftrightarrow> (\<exists>i<1. bit m (j + i))" by simp
  have 2: "\<forall>j. bit v2 j \<longleftrightarrow> (\<exists>i<2. bit m (j + i))"
    using smear_step [OF lo 1] by (simp add: v2_def)
  have 3: "\<forall>j. bit v3 j \<longleftrightarrow> (\<exists>i<4. bit m (j + i))"
    using smear_step [OF lo 2] by (simp add: v3_def)
  have 4: "\<forall>j. bit v4 j \<longleftrightarrow> (\<exists>i<8. bit m (j + i))"
    using smear_step [OF lo 3] by (simp add: v4_def)
  have 5: "\<forall>j. bit v5 j \<longleftrightarrow> (\<exists>i<16. bit m (j + i))"
    using smear_step [OF lo 4] by (simp add: v5_def)
  have 6: "\<forall>j. bit v6 j \<longleftrightarrow> (\<exists>i<32. bit m (j + i))"
    using smear_step [OF lo 5] by (simp add: v6_def)
  have "nextPowerOf2 (m + 1) - 1 = v6"
    by (simp add: nextPowerOf2_def Let_def v2_def v3_def v4_def v5_def v6_def)
  moreover have "(\<exists>i<32. bit m (j + i)) \<longleftrightarrow> (\<exists>i. bit m (j + i))"
  proof
    assume "\<exists>i. bit m (j + i)"
    then obtain i where i: "bit m (j + i)" by blast
    then have "j + i < 32" using lo by (meson not_le)
    then have "i < 32" by simp
    with i show "\<exists>i<32. bit m (j + i)" by blast
  qed blast
  ultimately show ?thesis using 6 by simp
qed

lemma nat_bit_above: "x < 2 ^ j \<Longrightarrow> \<not> bit (x::nat) j"
  by (simp add: bit_nat_def)

lemma nat_bit_top: "2 ^ j \<le> x \<Longrightarrow> x < 2 ^ Suc j \<Longrightarrow> bit (x::nat) j"
proof -
  assume a: "2 ^ j \<le> x" "x < 2 ^ Suc j"
  have "x div 2 ^ j = 1"
  proof -
    have "x div 2 ^ j < 2" using a(2) by (simp add: less_mult_imp_div_less)
    moreover have "1 \<le> x div 2 ^ j" using a(1)
      by (simp add: Suc_le_eq div_greater_zero_iff)
    ultimately show ?thesis by simp
  qed
  then show ?thesis by (simp add: bit_nat_def)
qed

text \<open>
  For a value \<open>x\<close> below \<open>2 ^ 32\<close> with \<open>k\<close> significant bits, the five shifts fill
  all bits below the leading one, and the increment gives \<open>2 ^ k\<close>.
\<close>

lemma nextPowerOf2_of_nat:
  assumes xk: "x < 2 ^ k" and k32: "k \<le> 32" and low: "k = 0 \<or> 2 ^ (k - 1) \<le> x"
  shows "nextPowerOf2 (of_nat x + 1) = 2 ^ k"
proof -
  define m :: go_int where "m = of_nat x"
  have bitm: "bit m j \<longleftrightarrow> j < 64 \<and> bit x j" for j
    by (simp add: m_def bit_of_nat_iff)
  have above: "\<not> bit x j" if "k \<le> j" for j
  proof -
    have "(2::nat) ^ k \<le> 2 ^ j" using that by simp
    with xk have "x < 2 ^ j" by (rule less_le_trans)
    then show ?thesis by (rule nat_bit_above)
  qed
  have lo: "\<forall>j\<ge>32. \<not> bit m j"
    using above k32 by (simp add: bitm)
  have "nextPowerOf2 (m + 1) - 1 = mask k"
  proof (rule bit_word_eqI)
    fix j
    assume "j < LENGTH(64)"
    show "bit (nextPowerOf2 (m + 1) - 1) j \<longleftrightarrow> bit (mask k :: go_int) j"
    proof (cases "j < k")
      case True
      then have kpos: "k \<noteq> 0" by simp
      with low have "2 ^ (k - 1) \<le> x" by simp
      moreover have "x < 2 ^ Suc (k - 1)" using xk kpos by simp
      ultimately have "bit x (k - 1)" by (rule nat_bit_top)
      moreover have "k - 1 < 64" using k32 by simp
      ultimately have "bit m (j + (k - 1 - j))" using True by (simp add: bitm)
      then have "\<exists>i. bit m (j + i)" by blast
      moreover have "j < 64" using True k32 by simp
      ultimately show ?thesis using True
        by (simp add: smear_bits [OF lo] bit_mask_iff)
    next
      case False
      then have "\<not> bit m (j + i)" for i
        using above [of "j + i"] by (simp add: bitm)
      then show ?thesis using False
        by (simp add: smear_bits [OF lo] bit_mask_iff)
    qed
  qed
  then have "nextPowerOf2 (m + 1) - 1 + 1 = mask k + 1" by (rule arg_cong)
  then have "nextPowerOf2 (m + 1) = mask k + 1" by simp
  then show ?thesis by (simp add: m_def inc_mask_eq_exp)
qed

lemma sint_pow2: "k \<le> 32 \<Longrightarrow> sint (2 ^ k :: go_int) = 2 ^ k"
proof -
  assume k: "k \<le> 32"
  have "(2::int) ^ k < 2 ^ 63"
    by (rule power_strict_increasing) (use k in simp_all)
  moreover have "- (2 ^ 63) \<le> (2::int) ^ k"
    by (rule order_trans [of _ 0]) simp_all
  ultimately have "signed_take_bit 63 ((2::int) ^ k) = 2 ^ k"
    by (rule signed_take_bit_int_eq_self [rotated])
  then have stb: "signed_take_bit (LENGTH(64) - 1) ((2::int) ^ k) = 2 ^ k" by simp
  have "sint (2 ^ k :: go_int) = sint (word_of_int (2 ^ k) :: go_int)"
    by (simp only: word_of_int_2p)
  also have "\<dots> = signed_take_bit (LENGTH(64) - 1) (2 ^ k)"
    by (rule sint_sbintrunc')
  finally show ?thesis using stb by simp
qed

lemma sint_of_nat_small: "n < 2 ^ 63 \<Longrightarrow> sint (of_nat n :: go_int) = int n"
proof -
  assume n: "n < 2 ^ 63"
  have "int n < int (2 ^ 63)" using n by (simp only: of_nat_less_iff)
  then have "int n < 2 ^ 63" by simp
  moreover have "- (2 ^ 63) \<le> int n" by (rule order_trans [of _ 0]) simp_all
  ultimately have "signed_take_bit 63 (int n) = int n"
    by (rule signed_take_bit_int_eq_self [rotated])
  then have stb: "signed_take_bit (LENGTH(64) - 1) (int n) = int n" by simp
  have "sint (of_nat n :: go_int) = sint (word_of_int (int n) :: go_int)" by simp
  also have "\<dots> = signed_take_bit (LENGTH(64) - 1) (int n)" by (rule sint_sbintrunc')
  finally show ?thesis using stb by simp
qed

lemma nextPowerOf2_least:
  assumes lo: "1 \<le> sint n" and hi: "sint n \<le> 2 ^ 32"
  shows "least_pow2_ge (sint n) (sint (nextPowerOf2 n))"
proof -
  define x where "x = nat (sint n) - 1"
  define k where "k = (LEAST k. x < 2 ^ k)"
  have sx: "sint n = int x + 1" using lo by (simp add: x_def)
  have x32: "x < 2 ^ 32"
  proof -
    have "x < 4294967296" using hi lo by (simp add: x_def)
    then show ?thesis by simp
  qed
  have n: "n = of_nat x + 1"
  proof -
    have "n = word_of_int (sint n)" by simp
    also have "\<dots> = word_of_int (int x + 1)" by (simp only: sx)
    also have "\<dots> = of_nat x + 1" by simp
    finally show ?thesis .
  qed
  have xk: "x < 2 ^ k" unfolding k_def by (rule LeastI [of _ 32]) (rule x32)
  have k32: "k \<le> 32" unfolding k_def by (rule Least_le) (rule x32)
  have low: "k = 0 \<or> 2 ^ (k - 1) \<le> x"
  proof (cases "k = 0")
    case False
    then have "k - 1 < k" by simp
    then have "\<not> x < 2 ^ (k - 1)" unfolding k_def by (rule not_less_Least)
    then show ?thesis by simp
  qed simp
  have res: "sint (nextPowerOf2 n) = 2 ^ k"
    using nextPowerOf2_of_nat [OF xk k32 low] sint_pow2 [OF k32] by (simp add: n)
  have "int x + 1 \<le> 2 ^ k"
  proof -
    have "Suc x \<le> 2 ^ k" using xk by simp
    then have "int (Suc x) \<le> int (2 ^ k)" by (simp only: of_nat_le_iff)
    then show ?thesis by simp
  qed
  moreover have "(2::int) ^ k \<le> 2 ^ j" if "int x + 1 \<le> 2 ^ j" for j
  proof (cases "k = 0")
    case True
    then show ?thesis by simp
  next
    case False
    with low have "2 ^ (k - 1) \<le> x" by simp
    moreover have "x < 2 ^ j"
    proof -
      have "int x < 2 ^ j" using that by linarith
      then have "int x < int (2 ^ j)" by simp
      then show ?thesis by (simp only: of_nat_less_iff)
    qed
    ultimately have "(2::nat) ^ (k - 1) < 2 ^ j" by (rule le_less_trans)
    then have "k - 1 < j" by simp
    then have "k \<le> j" using False by simp
    then show ?thesis by simp
  qed
  ultimately show ?thesis
    unfolding least_pow2_ge_def res sx by blast
qed

section \<open>Claims about \<^verbatim>\<open>nextPowerOf2\<close>\<close>

text \<open>
  Against claim C1 as stated: on 0 the function returns 0, which is neither 1 nor a
  power of two; on the negative input \<open>- 5\<close> it returns 0 as well; and on
  \<open>2 ^ 32 + 1\<close> it returns \<open>2 ^ 33 - 1\<close>, which is not a power of two either.
\<close>

theorem nextPowerOf2_zero_counterexample:
  "nextPowerOf2 0 = 0 \<and> \<not> least_pow2_ge 0 (sint (nextPowerOf2 0))
   \<and> nextPowerOf2 (- 5) = 0
   \<and> nextPowerOf2 (2 ^ 32 + 1) = 2 ^ 33 - 1"
proof -
  have z: "nextPowerOf2 0 = 0" by (simp add: nextPowerOf2_def)
  have "\<not> least_pow2_ge 0 0" by (simp add: least_pow2_ge_def)
  moreover have "nextPowerOf2 (- 5) = 0" by (simp add: nextPowerOf2_def)
  moreover have "nextPowerOf2 (2 ^ 32 + 1) = 2 ^ 33 - 1" by (simp add: nextPowerOf2_def)
  ultimately show ?thesis using z by simp
qed

text \<open>
  Claim C1, amended: for every \<open>n\<close> from 1 to \<open>2 ^ 32\<close>, \<^verbatim>\<open>nextPowerOf2\<close> returns the
  smallest power of two that is at least \<open>n\<close> (in particular 1 gives 1, 5 gives 8,
  8 gives 8 and 9 gives 16); on 0 it returns 0.
\<close>

theorem nextPowerOf2_ceiling:
  "(1 \<le> sint n \<and> sint n \<le> 2 ^ 32 \<longrightarrow> least_pow2_ge (sint n) (sint (nextPowerOf2 n)))
   \<and> nextPowerOf2 0 = 0 \<and> nextPowerOf2 1 = 1 \<and> nextPowerOf2 5 = 8
   \<and> nextPowerOf2 8 = 8 \<and> nextPowerOf2 9 = 16"
proof -
  have "nextPowerOf2 0 = 0" "nextPowerOf2 1 = 1" "nextPowerOf2 5 = 8"
    "nextPowerOf2 8 = 8" "nextPowerOf2 9 = 16"
    by (simp_all add: nextPowerOf2_def)
  then show ?thesis using nextPowerOf2_least [of n] by simp
qed

theorem nextPowerOf2_ceiling_witness:
  "1 \<le> sint (5 :: go_int) \<and> sint (5 :: go_int) \<le> 2 ^ 32
   \<and> least_pow2_ge (sint (5 :: go_int)) (sint (nextPowerOf2 5))"
  using nextPowerOf2_ceiling [of 5, THEN conjunct1] by simp

text \<open>
  With the leading bit of the decremented value at position \<open>k\<close>, from 32 to 61, the
  five shifts set the 32 bits from \<open>k\<close> down to \<open>k - 31\<close> and nothing below.
\<close>

lemma nextPowerOf2_window:
  assumes "32 \<le> k" and "k \<le> 61"
  shows "nextPowerOf2 (2 ^ k + 1) = 2 ^ (k + 1) - 2 ^ (k - 31) + 1"
proof -
  have "k = 32 \<or> k = 33 \<or> k = 34 \<or> k = 35 \<or> k = 36 \<or> k = 37 \<or> k = 38 \<or> k = 39
      \<or> k = 40 \<or> k = 41 \<or> k = 42 \<or> k = 43 \<or> k = 44 \<or> k = 45 \<or> k = 46 \<or> k = 47
      \<or> k = 48 \<or> k = 49 \<or> k = 50 \<or> k = 51 \<or> k = 52 \<or> k = 53 \<or> k = 54 \<or> k = 55
      \<or> k = 56 \<or> k = 57 \<or> k = 58 \<or> k = 59 \<or> k = 60 \<or> k = 61"
    using assms by arith
  then show ?thesis
    by (elim disjE) (simp_all add: nextPowerOf2_def)
qed

lemma pow2_33_ceiling: "least_pow2_ge (2 ^ 32 + 1) (2 ^ 33)"
proof -
  have "(2::int) ^ 33 \<le> 2 ^ j" if "(2::int) ^ 32 + 1 \<le> 2 ^ j" for j :: nat
  proof -
    have "(2::int) ^ 32 < 2 ^ j" using that by linarith
    then have "32 < j" by (simp only: power_strict_increasing_iff) 
    then have "33 \<le> j" by simp
    then show ?thesis by (rule power_increasing) simp
  qed
  then show ?thesis
    unfolding least_pow2_ge_def by (intro conjI exI [of _ 33] allI impI) simp_all
qed

lemma not_pow2_odd: "\<not> least_pow2_ge (2 ^ 32 + 1) (2 ^ 33 - 1)"
proof
  assume "least_pow2_ge (2 ^ 32 + 1) (2 ^ 33 - 1)"
  then obtain k :: nat where k: "(2::int) ^ 33 - 1 = 2 ^ k"
    unfolding least_pow2_ge_def by blast
  show False
  proof (cases k)
    case 0
    with k show False by simp
  next
    case (Suc k')
    then have "even ((2::int) ^ k)" by simp
    then have "even ((2::int) ^ 33 - 1)" by (simp only: k)
    then show False by simp
  qed
qed

text \<open>
  Claim C10: the shifts carry the leading bit over 32 positions only. For every \<open>n\<close>
  from 2 to \<open>2 ^ 32\<close> the result is the least power of two that is at least \<open>n\<close>.
  Above that the low bits are no longer filled: on \<open>2 ^ k + 1\<close>, for \<open>k\<close> from 32 to
  61, the result is \<open>2 ^ (k + 1) - 2 ^ (k - 31) + 1\<close>; on \<open>2 ^ 32 + 1\<close> it is
  \<open>2 ^ 33 - 1\<close>, where the power-of-two ceiling is \<open>2 ^ 33\<close>. And some \<open>n\<close> above
  \<open>2 ^ 32\<close> of the 64-bit range gets a result that is smaller than \<open>n\<close> and is not the
  power-of-two ceiling of \<open>n\<close>: the largest \<^verbatim>\<open>int\<close>, \<open>2 ^ 63 - 1\<close>, where the final
  increment wraps around to \<open>- (2 ^ 63)\<close>.
\<close>

theorem nextPowerOf2_32_bits:
  "(\<forall>n. 2 \<le> sint n \<and> sint n \<le> 2 ^ 32 \<longrightarrow> least_pow2_ge (sint n) (sint (nextPowerOf2 n)))
   \<and> (\<forall>k. 32 \<le> k \<and> k \<le> 61
          \<longrightarrow> nextPowerOf2 (2 ^ k + 1) = 2 ^ (k + 1) - 2 ^ (k - 31) + 1)
   \<and> nextPowerOf2 (2 ^ 32 + 1) = 2 ^ 33 - 1
   \<and> sint (2 ^ 32 + 1 :: go_int) = 2 ^ 32 + 1
   \<and> sint (nextPowerOf2 (2 ^ 32 + 1)) = 2 ^ 33 - 1
   \<and> least_pow2_ge (2 ^ 32 + 1) (2 ^ 33)
   \<and> \<not> least_pow2_ge (2 ^ 32 + 1) (2 ^ 33 - 1)
   \<and> (\<exists>n. 2 ^ 32 < sint n \<and> sint (nextPowerOf2 n) < sint n
          \<and> \<not> least_pow2_ge (sint n) (sint (nextPowerOf2 n)))"
proof (intro conjI)
  show "\<forall>n. 2 \<le> sint n \<and> sint n \<le> 2 ^ 32 \<longrightarrow> least_pow2_ge (sint n) (sint (nextPowerOf2 n))"
  proof (intro allI impI)
    fix n :: go_int
    assume a: "2 \<le> sint n \<and> sint n \<le> 2 ^ 32"
    then have "1 \<le> sint n" by linarith
    with a show "least_pow2_ge (sint n) (sint (nextPowerOf2 n))"
      by (simp add: nextPowerOf2_least)
  qed
next
  show "\<forall>k. 32 \<le> k \<and> k \<le> 61
          \<longrightarrow> nextPowerOf2 (2 ^ k + 1) = 2 ^ (k + 1) - 2 ^ (k - 31) + 1"
    using nextPowerOf2_window by blast
next
  show "nextPowerOf2 (2 ^ 32 + 1) = 2 ^ 33 - 1" by (simp add: nextPowerOf2_def)
next
  show "sint (2 ^ 32 + 1 :: go_int) = 2 ^ 32 + 1" by simp
next
  show "sint (nextPowerOf2 (2 ^ 32 + 1)) = 2 ^ 33 - 1" by (simp add: nextPowerOf2_def)
next
  show "least_pow2_ge (2 ^ 32 + 1) (2 ^ 33)" by (rule pow2_33_ceiling)
next
  show "\<not> least_pow2_ge (2 ^ 32 + 1) (2 ^ 33 - 1)" by (rule not_pow2_odd)
next
  have r: "sint (nextPowerOf2 9223372036854775807) = - 9223372036854775808"
    by (simp add: nextPowerOf2_def)
  have "\<not> least_pow2_ge 9223372036854775807 (- 9223372036854775808)"
    by (simp add: least_pow2_ge_def)
  then have "2 ^ 32 < sint (9223372036854775807 :: go_int)
      \<and> sint (nextPowerOf2 9223372036854775807) < sint (9223372036854775807 :: go_int)
      \<and> \<not> least_pow2_ge (sint (9223372036854775807 :: go_int))
            (sint (nextPowerOf2 9223372036854775807))"
    by (simp add: r)
  then show "\<exists>n. 2 ^ 32 < sint n \<and> sint (nextPowerOf2 n) < sint n
          \<and> \<not> least_pow2_ge (sint n) (sint (nextPowerOf2 n))" by (rule exI)
qed

theorem nextPowerOf2_32_bits_witness:
  "2 \<le> sint (9 :: go_int) \<and> sint (9 :: go_int) \<le> 2 ^ 32
   \<and> least_pow2_ge (sint (9 :: go_int)) (sint (nextPowerOf2 9))
   \<and> (32 :: nat) \<le> 40 \<and> (40 :: nat) \<le> 61
   \<and> nextPowerOf2 (2 ^ 40 + 1) = 2 ^ (40 + 1) - 2 ^ (40 - 31) + 1"
proof -
  have 1: "least_pow2_ge (sint (9 :: go_int)) (sint (nextPowerOf2 9))"
    using nextPowerOf2_32_bits [THEN conjunct1, rule_format, of 9] by simp
  have 2: "nextPowerOf2 (2 ^ 40 + 1) = 2 ^ (40 + 1) - 2 ^ (40 - 31) + 1"
    using nextPowerOf2_32_bits [THEN conjunct2, THEN conjunct1, rule_format, of 40] by simp
  show ?thesis using 1 2 by simp
qed

text \<open>
  Just above \<open>2 ^ 32\<close> the low bit stays clear and the result is one less than a power
  of two; on an input whose low bits are all set below the leading one, such as
  \<open>2 ^ 33\<close>, the result is still the ceiling.
\<close>

lemma nextPowerOf2_above_32_bits:
  "nextPowerOf2 (2 ^ 32 + 1) = 2 ^ 33 - 1 \<and> nextPowerOf2 (2 ^ 33) = 2 ^ 33"
  by (simp add: nextPowerOf2_def)

text \<open>
  Up to \<open>2 ^ 62\<close> the result is never below the input: each step only adds bits, and
  the increment does not wrap. A result smaller than its input therefore needs an input
  above \<open>2 ^ 62\<close>, where the increment can wrap around.
\<close>

lemma or_shift_bounds:
  fixes x :: go_int
  assumes hi: "\<forall>j\<ge>62. \<not> bit x j"
  shows "\<forall>j\<ge>62. \<not> bit (x OR signed_drop_bit k x) j" and "x \<le> x OR signed_drop_bit k x"
proof -
  have sdb: "bit (signed_drop_bit k x) j \<longleftrightarrow> bit x (k + j)" for j
  proof (cases "64 - k \<le> j \<and> j < 64")
    case True
    then have "62 \<le> k + j" by arith
    then show ?thesis
      using True hi by (simp add: bit_signed_drop_bit_iff)
  next
    case False
    then show ?thesis by (auto simp add: bit_signed_drop_bit_iff)
  qed
  show "\<forall>j\<ge>62. \<not> bit (x OR signed_drop_bit k x) j"
    using hi by (simp add: bit_or_iff sdb)
  show "x \<le> x OR signed_drop_bit k x"
    by (rule le_word_or2)
qed

lemma nextPowerOf2_not_below:
  assumes lo: "1 \<le> sint n" and hi: "sint n \<le> 2 ^ 62"
  shows "sint n \<le> sint (nextPowerOf2 n)"
proof -
  define m where "m = n - 1"
  define v2 where "v2 = m OR signed_drop_bit 1 m"
  define v3 where "v3 = v2 OR signed_drop_bit 2 v2"
  define v4 where "v4 = v3 OR signed_drop_bit 4 v3"
  define v5 where "v5 = v4 OR signed_drop_bit 8 v4"
  define v6 where "v6 = v5 OR signed_drop_bit 16 v5"
  define x where "x = nat (sint n) - 1"
  have sx: "sint n = int x + 1" using lo by (simp add: x_def)
  have x62: "x < 2 ^ 62"
  proof -
    have "x < 4611686018427387904" using hi lo by (simp add: x_def)
    then show ?thesis by simp
  qed
  have n: "n = of_nat x + 1"
  proof -
    have "n = word_of_int (sint n)" by simp
    also have "\<dots> = word_of_int (int x + 1)" by (simp only: sx)
    also have "\<dots> = of_nat x + 1" by simp
    finally show ?thesis .
  qed
  then have m: "m = of_nat x" by (simp add: m_def)
  have b1: "\<forall>j\<ge>62. \<not> bit m j"
  proof (intro allI impI)
    fix j :: nat
    assume "62 \<le> j"
    then have "(2::nat) ^ 62 \<le> 2 ^ j" by (rule power_increasing) simp
    with x62 have "x < 2 ^ j" by (rule less_le_trans)
    then have "\<not> bit x j" by (rule nat_bit_above)
    then show "\<not> bit m j" by (simp add: m bit_of_nat_iff)
  qed
  note s2 = or_shift_bounds [OF b1, of 1, folded v2_def]
  note s3 = or_shift_bounds [OF s2(1), of 2, folded v3_def]
  note s4 = or_shift_bounds [OF s3(1), of 4, folded v4_def]
  note s5 = or_shift_bounds [OF s4(1), of 8, folded v5_def]
  note s6 = or_shift_bounds [OF s5(1), of 16, folded v6_def]
  have le: "m \<le> v6" using s2(2) s3(2) s4(2) s5(2) s6(2) by simp
  have res: "nextPowerOf2 n = v6 + 1"
    by (simp add: nextPowerOf2_def Let_def m_def v2_def v3_def v4_def v5_def v6_def)
  have v6b: "unat v6 < 2 ^ 62"
  proof -
    have "take_bit 62 v6 = v6"
    proof (rule bit_word_eqI)
      fix j
      assume "j < LENGTH(64)"
      show "bit (take_bit 62 v6) j \<longleftrightarrow> bit v6 j"
        using s6(1) by (cases "j < 62") (simp_all add: bit_take_bit_iff)
    qed
    then have "unat v6 = unat (take_bit 62 v6)" by (rule arg_cong [symmetric])
    also have "\<dots> = take_bit 62 (unat v6)" by (rule unsigned_take_bit_eq)
    also have "\<dots> < 2 ^ 62" by (rule take_bit_nat_less_exp)
    finally show ?thesis .
  qed
  have "unat m \<le> unat v6" using le by (simp add: word_le_nat_alt)
  moreover have "unat m = x" using x62 by (simp add: m unat_of_nat)
  ultimately have xle: "x \<le> unat v6" by simp
  have "v6 + 1 = of_nat (Suc (unat v6))" by simp
  moreover have "Suc (unat v6) < 2 ^ 63"
  proof -
    have "Suc (unat v6) \<le> 2 ^ 62" using v6b by simp
    also have "\<dots> < (2::nat) ^ 63" by simp
    finally show ?thesis .
  qed
  ultimately have "sint (v6 + 1) = int (Suc (unat v6))"
    using sint_of_nat_small by metis
  moreover have "int x \<le> int (unat v6)" using xle by (simp only: of_nat_le_iff)
  ultimately have "int x + 1 \<le> sint (v6 + 1)" by simp
  then show ?thesis by (simp only: res sx)
qed

section \<open>Claims about the reload decision\<close>

lemma isReloadRequired_same:
  "files w cfgPath = Some data \<Longrightarrow> isReloadRequired n e data w = (False, w)"
  by (simp add: isReloadRequired_def os_Open_def ioutil_ReadAll_def split: option.splits)

lemma world_of_cfg: "files (world_of c) cfgPath = c"
  by (simp add: world_of_def)

lemma temp_diff_name_fresh:
  "files (world_of c) ''/tmp/nginx-cfg-diff123456789'' = None"
  by (simp add: world_of_def cfgPath_def)

text \<open>
  Against claim C2 as stated: with no committed file at all, the decision is "no
  reload".
\<close>

theorem isReloadRequired_unreadable_counterexample:
  "\<not> fst (isReloadRequired nginx0 env_ok ''worker_processes 1;'' (world_of None))"
  by (simp add: isReloadRequired_def os_Open_def world_of_def)

text \<open>
  Claim C2, amended: for every candidate, when the committed configuration file is
  missing, cannot be opened or cannot be read, \<^verbatim>\<open>isReloadRequired\<close> does not fail; it
  reports that no reload is required, and changes nothing.
\<close>

theorem isReloadRequired_unreadable:
  assumes "files w cfgPath = None \<or> open_err e \<noteq> None \<or> read_err e \<noteq> None"
  shows "isReloadRequired n e data w = (False, w)"
  using assms
  by (auto simp add: isReloadRequired_def os_Open_def ioutil_ReadAll_def split: option.splits)

theorem isReloadRequired_unreadable_witness:
  "files (world_of None) cfgPath = None
   \<and> isReloadRequired nginx0 env_ok ''worker_processes 1;'' (world_of None)
       = (False, world_of None)"
proof -
  have h: "files (world_of None) cfgPath = None" by (simp add: world_of_def)
  then have "files (world_of None) cfgPath = None \<or> open_err env_ok \<noteq> None \<or> read_err env_ok \<noteq> None"
    by simp
  then show ?thesis using h by (simp add: isReloadRequired_unreadable)
qed

text \<open>
  Against claim C4 as stated: the candidate differs from the committed bytes, the
  temporary file for the diff cannot be created, and the decision is "no reload".
\<close>

theorem isReloadRequired_differs_counterexample:
  "\<not> fst (isReloadRequired nginx0 env_no_temp ''events {}'' (world_of (Some ''http {}'')))"
  by (simp add: isReloadRequired_def os_Open_def ioutil_ReadAll_def ioutil_TempFile_def
      world_of_cfg env_no_temp_def env_ok_def)

text \<open>
  Claim C4, amended: \<^verbatim>\<open>isReloadRequired\<close> reports false whenever the candidate is
  byte-identical to the committed configuration. When the two differ, the committed file
  is read, and the temporary file for the diff is created and written, the diff is part
  of the decision: the answer is true exactly when the diff helper fails or returns a
  non-empty output.
\<close>

theorem isReloadRequired_decision:
  "(files w cfgPath = Some data \<longrightarrow> isReloadRequired n e data w = (False, w))
   \<and> (files w cfgPath = Some src \<and> src \<noteq> data \<and> open_err e = None \<and> read_err e = None
        \<and> ioutil_TempFile e ''nginx-cfg-diff'' w = (Inr tmpfile, w1)
        \<and> write_result e tmpfile = None
      \<longrightarrow> fst (isReloadRequired n e data w)
          = (case diff e src data of Inl err \<Rightarrow> True | Inr diffOutput \<Rightarrow> diffOutput \<noteq> []))"
proof (intro conjI impI)
  assume "files w cfgPath = Some data"
  then show "isReloadRequired n e data w = (False, w)"
    by (rule isReloadRequired_same)
next
  assume "files w cfgPath = Some src \<and> src \<noteq> data \<and> open_err e = None \<and> read_err e = None
        \<and> ioutil_TempFile e ''nginx-cfg-diff'' w = (Inr tmpfile, w1)
        \<and> write_result e tmpfile = None"
  then show "fst (isReloadRequired n e data w)
          = (case diff e src data of Inl err \<Rightarrow> True | Inr diffOutput \<Rightarrow> diffOutput \<noteq> [])"
    by (simp add: isReloadRequired_def os_Open_def ioutil_ReadAll_def ioutil_WriteFile_def
        split: sum.splits)
qed

theorem isReloadRequired_decision_witness:
  "isReloadRequired nginx0 env_ok ''http {}'' (world_of (Some ''http {}''))
     = (False, world_of (Some ''http {}''))
   \<and> diff env_ok ''http {}'' ''events {}'' = Inr ''--- +++''
   \<and> fst (isReloadRequired nginx0 env_ok ''events {}'' (world_of (Some ''http {}'')))"
proof -
  have a: "files (world_of (Some ''http {}'')) cfgPath = Some ''http {}''"
    by (rule world_of_cfg)
  have c: "''http {}'' \<noteq> ''events {}''" by simp
  have op: "open_err env_ok = None" and rd: "read_err env_ok = None"
    by (simp_all add: env_ok_def)
  have tmp: "ioutil_TempFile env_ok ''nginx-cfg-diff'' (world_of (Some ''http {}''))
      = (Inr ''/tmp/nginx-cfg-diff123456789'',
         snd (ioutil_TempFile env_ok ''nginx-cfg-diff'' (world_of (Some ''http {}''))))"
    by (simp add: ioutil_TempFile_def Let_def env_ok_def temp_diff_name_fresh)
  have wr: "write_result env_ok ''/tmp/nginx-cfg-diff123456789'' = None"
    by (simp add: env_ok_def)
  have df: "diff env_ok ''http {}'' ''events {}'' = Inr ''--- +++''"
    by (simp add: env_ok_def)
  have 1: "isReloadRequired nginx0 env_ok ''http {}'' (world_of (Some ''http {}''))
     = (False, world_of (Some ''http {}''))"
    using isReloadRequired_decision [THEN conjunct1, rule_format, OF a] .
  have 2: "fst (isReloadRequired nginx0 env_ok ''events {}'' (world_of (Some ''http {}'')))"
    using isReloadRequired_decision [THEN conjunct2, rule_format,
        OF conjI [OF a conjI [OF c conjI [OF op conjI [OF rd conjI [OF tmp wr]]]]], of nginx0]
    by (simp add: df)
  show ?thesis using 1 2 df by simp
qed

text \<open>
  Claim C7: for every pair of differing byte sequences, when the diff of the committed
  and the candidate configuration is computed (the committed file was read and the
  temporary file created and written) and fails, \<^verbatim>\<open>isReloadRequired\<close> reports true.
\<close>

theorem isReloadRequired_diff_error:
  assumes src: "files w cfgPath = Some src" and ne: "src \<noteq> data"
    and op: "open_err e = None" and rd: "read_err e = None"
    and tmp: "ioutil_TempFile e ''nginx-cfg-diff'' w = (Inr tmpfile, w1)"
    and wr: "write_result e tmpfile = None"
    and df: "diff e src data = Inl err"
  shows "fst (isReloadRequired n e data w)"
  using assms
  by (simp add: isReloadRequired_def os_Open_def ioutil_ReadAll_def ioutil_WriteFile_def)

theorem isReloadRequired_diff_error_witness:
  "files (world_of (Some ''http {}'')) cfgPath = Some ''http {}''
   \<and> diff env_diff_fails ''http {}'' ''events {}'' = Inl (ErrorString ''exec: diff not found'')
   \<and> fst (isReloadRequired nginx0 env_diff_fails ''events {}'' (world_of (Some ''http {}'')))"
proof -
  have a: "files (world_of (Some ''http {}'')) cfgPath = Some ''http {}''"
    by (rule world_of_cfg)
  have c: "''http {}'' \<noteq> ''events {}''" by simp
  have op: "open_err env_diff_fails = None" and rd: "read_err env_diff_fails = None"
    by (simp_all add: env_diff_fails_def env_ok_def)
  have tmp: "ioutil_TempFile env_diff_fails ''nginx-cfg-diff'' (world_of (Some ''http {}''))
      = (Inr ''/tmp/nginx-cfg-diff123456789'',
         snd (ioutil_TempFile env_diff_fails ''nginx-cfg-diff'' (world_of (Some ''http {}''))))"
    by (simp add: ioutil_TempFile_def Let_def env_diff_fails_def env_ok_def temp_diff_name_fresh)
  have wr: "write_result env_diff_fails ''/tmp/nginx-cfg-diff123456789'' = None"
    by (simp add: env_diff_fails_def env_ok_def)
  have df: "diff env_diff_fails ''http {}'' ''events {}'' = Inl (ErrorString ''exec: diff not found'')"
    by (simp add: env_diff_fails_def env_ok_def)
  show ?thesis
    using a df isReloadRequired_diff_error [OF a c op rd tmp wr df] by simp
qed

text \<open>
  Claim C9: for every candidate that differs from the committed bytes, when creating the
  temporary file for the diff fails, or writing it fails, \<^verbatim>\<open>isReloadRequired\<close> returns
  false.
\<close>

theorem isReloadRequired_temp_failure:
  assumes src: "files w cfgPath = Some src" and ne: "src \<noteq> data"
    and tmp: "fst (ioutil_TempFile e ''nginx-cfg-diff'' w) = Inl err
              \<or> (ioutil_TempFile e ''nginx-cfg-diff'' w = (Inr tmpfile, w1)
                  \<and> write_result e tmpfile \<noteq> None)"
  shows "\<not> fst (isReloadRequired n e data w)"
  using assms
  by (auto simp add: isReloadRequired_def os_Open_def ioutil_ReadAll_def ioutil_WriteFile_def
      split: option.splits sum.splits prod.splits)

theorem isReloadRequired_temp_failure_witness:
  "files (world_of (Some ''http {}'')) cfgPath = Some ''http {}''
   \<and> fst (ioutil_TempFile env_no_temp ''nginx-cfg-diff'' (world_of (Some ''http {}'')))
       = Inl (PathError ''no space left on device'')
   \<and> \<not> fst (isReloadRequired nginx0 env_no_temp ''events {}'' (world_of (Some ''http {}'')))
   \<and> fst (ioutil_TempFile env_no_write ''nginx-cfg-diff'' (world_of (Some ''http {}'')))
       = Inr ''/tmp/nginx-cfg-diff123456789''
   \<and> write_result env_no_write ''/tmp/nginx-cfg-diff123456789''
       = Some (''no space left on device'', Some [])
   \<and> \<not> fst (isReloadRequired nginx0 env_no_write ''events {}'' (world_of (Some ''http {}'')))"
proof -
  have a: "files (world_of (Some ''http {}'')) cfgPath = Some ''http {}''"
    by (rule world_of_cfg)
  have b: "fst (ioutil_TempFile env_no_temp ''nginx-cfg-diff'' (world_of (Some ''http {}'')))
       = Inl (PathError ''no space left on device'')"
    by (simp add: ioutil_TempFile_def env_no_temp_def env_ok_def)
  have c: "''http {}'' \<noteq> ''events {}''" by simp
  have 1: "\<not> fst (isReloadRequired nginx0 env_no_temp ''events {}'' (world_of (Some ''http {}'')))"
    by (rule isReloadRequired_temp_failure [OF a c disjI1 [OF b]])
  have d: "fst (ioutil_TempFile env_no_write ''nginx-cfg-diff'' (world_of (Some ''http {}'')))
       = Inr ''/tmp/nginx-cfg-diff123456789''"
    by (simp add: ioutil_TempFile_def Let_def env_no_write_def env_ok_def temp_diff_name_fresh)
  then obtain w1 where tf:
    "ioutil_TempFile env_no_write ''nginx-cfg-diff'' (world_of (Some ''http {}''))
       = (Inr ''/tmp/nginx-cfg-diff123456789'', w1)"
    by (cases "ioutil_TempFile env_no_write ''nginx-cfg-diff'' (world_of (Some ''http {}''))") simp
  have wr: "write_result env_no_write ''/tmp/nginx-cfg-diff123456789''
       = Some (''no space left on device'', Some [])"
    by (simp add: env_no_write_def env_ok_def)
  then have wr': "write_result env_no_write ''/tmp/nginx-cfg-diff123456789'' \<noteq> None" by simp
  have 2: "\<not> fst (isReloadRequired nginx0 env_no_write ''events {}'' (world_of (Some ''http {}'')))"
    by (rule isReloadRequired_temp_failure [OF a c disjI2 [OF conjI [OF tf wr']]])
  show ?thesis using a b 1 d wr 2 by (intro conjI)
qed

section \<open>Claims about the commit operation\<close>

lemma Reload_success_committed:
  assumes "Reload n e data w = ((out, None), w1)"
  shows "files w1 cfgPath = Some data"
  using assms
  by (auto simp add: Reload_def ioutil_WriteFile_def CombinedOutput_def
      split: prod.splits bool.splits option.splits)

text \<open>
  Against claim C3 as stated: on a candidate that is byte-identical to the committed
  configuration, \<^verbatim>\<open>Reload\<close> returns an error, not success.
\<close>

theorem Reload_unchanged_counterexample:
  "fst (Reload nginx0 env_ok ''events {}'' (world_of (Some ''events {}'')))
     = ([], Some (ErrorString ''Reload not required''))"
  by (simp add: Reload_def isReloadRequired_def os_Open_def ioutil_ReadAll_def world_of_def
      env_ok_def)

text \<open>
  Claim C3, amended: for every candidate that is byte-identical to the committed
  configuration, \<^verbatim>\<open>Reload\<close> writes nothing, runs no command and returns the error
  "Reload not required". After a call of \<^verbatim>\<open>Reload\<close> that returned no error, a second
  call with the same candidate, in any environment, does the same: no write and no
  reload signal.
\<close>

theorem Reload_unchanged:
  "(files w cfgPath = Some data
      \<longrightarrow> Reload n e data w = (([], Some (ErrorString ''Reload not required'')), w))
   \<and> (Reload n e1 data w = ((out, None), w1)
      \<longrightarrow> Reload n e2 data w1 = (([], Some (ErrorString ''Reload not required'')), w1))"
proof -
  have same: "Reload n' e' data' w' = (([], Some (ErrorString ''Reload not required'')), w')"
    if "files w' cfgPath = Some data'" for n' e' data' w'
    using that by (simp add: Reload_def isReloadRequired_same)
  show ?thesis using same Reload_success_committed by blast
qed

theorem Reload_unchanged_witness:
  "Reload nginx0 env_ok ''http {}'' (world_of (Some ''http {}''))
     = (([], Some (ErrorString ''Reload not required'')), world_of (Some ''http {}''))
   \<and> snd (fst (Reload nginx0 env_ok ''events {}'' (world_of (Some ''http {}'')))) = None
   \<and> Reload nginx0 env_ok ''events {}''
        (snd (Reload nginx0 env_ok ''events {}'' (world_of (Some ''http {}''))))
      = (([], Some (ErrorString ''Reload not required'')),
         snd (Reload nginx0 env_ok ''events {}'' (world_of (Some ''http {}''))))"
proof -
  have c: "''http {}'' \<noteq> ''events {}''" by simp
  have "fst (isReloadRequired nginx0 env_ok ''events {}'' (world_of (Some ''http {}'')))"
    using c
    by (simp add: isReloadRequired_def os_Open_def ioutil_ReadAll_def ioutil_TempFile_def
      ioutil_WriteFile_def Let_def world_of_cfg temp_diff_name_fresh env_ok_def)
  then obtain w1 where r:
    "isReloadRequired nginx0 env_ok ''events {}'' (world_of (Some ''http {}'')) = (True, w1)"
    by (cases "isReloadRequired nginx0 env_ok ''events {}'' (world_of (Some ''http {}''))") simp
  have wr: "write_result env_ok cfgPath = None"
    and run: "run_cmd env_ok b args fs = ([], None)" for b args fs
    by (simp_all add: env_ok_def)
  have ok: "snd (fst (Reload nginx0 env_ok ''events {}'' (world_of (Some ''http {}'')))) = None"
    by (simp add: Reload_def r ioutil_WriteFile_def CombinedOutput_def wr run)
  then obtain out w2 where first:
    "Reload nginx0 env_ok ''events {}'' (world_of (Some ''http {}'')) = ((out, None), w2)"
    by (cases "Reload nginx0 env_ok ''events {}'' (world_of (Some ''http {}''))") auto
  have "Reload nginx0 env_ok ''events {}'' w2
      = (([], Some (ErrorString ''Reload not required'')), w2)"
    using Reload_unchanged [THEN conjunct2, rule_format, OF first] .
  moreover have "Reload nginx0 env_ok ''http {}'' (world_of (Some ''http {}''))
     = (([], Some (ErrorString ''Reload not required'')), world_of (Some ''http {}''))"
    using Reload_unchanged [THEN conjunct1, rule_format, OF world_of_cfg] .
  ultimately show ?thesis using ok by (simp add: first)
qed

section \<open>Claims about the validator\<close>

text \<open>
  No name that \<^verbatim>\<open>ioutil.TempFile\<close> builds from the prefix \<^verbatim>\<open>nginx-cfg\<close> is the path of
  the committed configuration, whatever the directory and the suffix.
\<close>

lemma cfgPath_suffixes: "\<forall>r\<in>set (suffixes cfgPath). \<not> prefix ''nginx-cfg'' r"
  by (simp add: cfgPath_def)

lemma temp_name_not_cfgPath: "d @ ''nginx-cfg'' @ s \<noteq> cfgPath"
proof
  assume eq: "d @ ''nginx-cfg'' @ s = cfgPath"
  then have "suffix (''nginx-cfg'' @ s) cfgPath" by (metis suffixI)
  then have "''nginx-cfg'' @ s \<in> set (suffixes cfgPath)" by simp
  then have "\<not> prefix ''nginx-cfg'' (''nginx-cfg'' @ s)" using cfgPath_suffixes by blast
  then show False by simp
qed

lemma TempFile_name:
  assumes "ioutil_TempFile e ''nginx-cfg'' w = (Inr name, w1)"
  shows "name \<noteq> cfgPath"
    and "w1 = w\<lparr>files := (files w)(name \<mapsto> []), trace := trace w @ [ACreate name]\<rparr>"
  using assms temp_name_not_cfgPath
  by (auto simp add: ioutil_TempFile_def Let_def split: sum.splits option.splits)

lemma TempFile_error:
  assumes "ioutil_TempFile e pfx w = (Inl err, w1)"
  shows "w1 = w" and "\<exists>m. err = PathError m"
  using assms
  by (auto simp add: ioutil_TempFile_def Let_def split: sum.splits option.splits)

text \<open>
  In every environment the validator leaves the committed file as it was, and none of
  the effects it issues creates, writes or removes it.
\<close>

lemma testTemplate_frame:
  "files (snd (testTemplate n e cfg w)) cfgPath = files w cfgPath
   \<and> (\<exists>xs. trace (snd (testTemplate n e cfg w)) = trace w @ xs
            \<and> (\<forall>a\<in>set xs. \<not> touches cfgPath a))"
proof (cases "ioutil_TempFile e ''nginx-cfg'' w")
  case (Pair r w1)
  show ?thesis
  proof (cases r)
    case (Inl err)
    with Pair have "w1 = w" using TempFile_error(1) by blast
    with Pair Inl show ?thesis by (simp add: testTemplate_def)
  next
    case (Inr name)
    with Pair have tf: "ioutil_TempFile e ''nginx-cfg'' w = (Inr name, w1)" by simp
    have ne: "name \<noteq> cfgPath" "cfgPath \<noteq> name" using TempFile_name(1) [OF tf] by auto
    have w1: "w1 = w\<lparr>files := (files w)(name \<mapsto> []), trace := trace w @ [ACreate name]\<rparr>"
      by (rule TempFile_name(2) [OF tf])
    show ?thesis
      using ne
      by (simp add: testTemplate_def tf w1 ioutil_WriteFile_def CombinedOutput_def Test_def
          os_Remove_def Let_def split: option.splits prod.splits)
  qed
qed

lemma temp_name_fresh:
  "files (world_of c) ''/tmp/nginx-cfg123456789'' = None"
  by (simp add: world_of_def cfgPath_def)

lemma TempFile_env:
  assumes "temp_result e = Inr (''/tmp/'', ''123456789'')"
  shows "\<exists>w1. ioutil_TempFile e ''nginx-cfg'' (world_of c) = (Inr ''/tmp/nginx-cfg123456789'', w1)"
  using assms by (simp add: ioutil_TempFile_def Let_def temp_name_fresh)

text \<open>
  Claim C8: for every candidate, when the temporary file was created and the checker
  accepts, \<^verbatim>\<open>testTemplate\<close> returns no error and its last effect is the removal of the
  temporary file it created (so the file is gone unless the operating system refuses the
  removal). When the temporary file cannot be created, the error of the creation is
  returned as it is, a \<^verbatim>\<open>*os.PathError\<close>, and nothing else happens. That is never the
  shape of the "configuration is invalid" result, which is an error string built around
  the checker's output.
\<close>

theorem testTemplate_cleanup_and_errors:
  "(ioutil_TempFile e ''nginx-cfg'' w = (Inr tmpfile, w1)
      \<and> fst (CombinedOutput e (Test n tmpfile) (snd (ioutil_WriteFile e tmpfile cfg w1)))
          = (out, None)
    \<longrightarrow> fst (testTemplate n e cfg w) = None
        \<and> trace (snd (testTemplate n e cfg w))
            = trace w @ [ACreate tmpfile, AWrite tmpfile cfg,
                         AExec (binary n) [''-t'', ''-c'', tmpfile], ARemove tmpfile]
        \<and> (remove_err e = None \<longrightarrow> files (snd (testTemplate n e cfg w)) tmpfile = None))
   \<and> (ioutil_TempFile e ''nginx-cfg'' w = (Inl err, w1)
    \<longrightarrow> testTemplate n e cfg w = (Some err, w)
        \<and> (\<exists>m. err = PathError m) \<and> (\<forall>s. err \<noteq> ErrorString s))
   \<and> (ioutil_TempFile e ''nginx-cfg'' w = (Inr tmpfile, w1)
      \<and> fst (CombinedOutput e (Test n tmpfile) (snd (ioutil_WriteFile e tmpfile cfg w1)))
          = (out, Some er)
    \<longrightarrow> fst (testTemplate n e cfg w) = Some (ErrorString (invalid_text er out))
        \<and> sublist out (invalid_text er out))"
proof (intro conjI impI)
  assume a: "ioutil_TempFile e ''nginx-cfg'' w = (Inr tmpfile, w1)
      \<and> fst (CombinedOutput e (Test n tmpfile) (snd (ioutil_WriteFile e tmpfile cfg w1)))
          = (out, None)"
  then have tf: "ioutil_TempFile e ''nginx-cfg'' w = (Inr tmpfile, w1)"
    and co: "fst (CombinedOutput e (Test n tmpfile) (snd (ioutil_WriteFile e tmpfile cfg w1)))
          = (out, None)" by simp_all
  have w1: "w1 = w\<lparr>files := (files w)(tmpfile \<mapsto> []), trace := trace w @ [ACreate tmpfile]\<rparr>"
    by (rule TempFile_name(2) [OF tf])
  show "fst (testTemplate n e cfg w) = None"
    using co by (auto simp add: testTemplate_def tf Let_def split: prod.splits)
  show "trace (snd (testTemplate n e cfg w))
            = trace w @ [ACreate tmpfile, AWrite tmpfile cfg,
                         AExec (binary n) [''-t'', ''-c'', tmpfile], ARemove tmpfile]"
    using co
    by (auto simp add: testTemplate_def tf w1 ioutil_WriteFile_def CombinedOutput_def Test_def
        os_Remove_def Let_def split: option.splits prod.splits)
  show "files (snd (testTemplate n e cfg w)) tmpfile = None" if "remove_err e = None"
    using co that
    by (auto simp add: testTemplate_def tf w1 ioutil_WriteFile_def CombinedOutput_def Test_def
        os_Remove_def Let_def split: option.splits prod.splits)
next
  assume tf: "ioutil_TempFile e ''nginx-cfg'' w = (Inl err, w1)"
  then have "w1 = w" and pe: "\<exists>m. err = PathError m" using TempFile_error by blast+
  then show "testTemplate n e cfg w = (Some err, w)"
    using tf by (simp add: testTemplate_def)
  show "\<exists>m. err = PathError m" by (rule pe)
  show "\<forall>s. err \<noteq> ErrorString s" using pe by auto
next
  assume a: "ioutil_TempFile e ''nginx-cfg'' w = (Inr tmpfile, w1)
      \<and> fst (CombinedOutput e (Test n tmpfile) (snd (ioutil_WriteFile e tmpfile cfg w1)))
          = (out, Some er)"
  then show "fst (testTemplate n e cfg w) = Some (ErrorString (invalid_text er out))"
    by (auto simp add: testTemplate_def Let_def split: prod.splits)
  have "invalid_text er out
      = ([CHR 0x0A] @ banner @ [CHR 0x0A] @ ''Error: '' @ error_text er @ [CHR 0x0A])
         @ out @ ([CHR 0x0A] @ banner @ [CHR 0x0A])"
    by (simp add: invalid_text_def)
  then show "sublist out (invalid_text er out)"
    by (simp only: sublist_appendI)
qed

theorem testTemplate_cleanup_and_errors_witness:
  "(fst (testTemplate nginx0 env_ok ''events {}'' (world_of (Some ''http {}''))) = None
    \<and> trace (snd (testTemplate nginx0 env_ok ''events {}'' (world_of (Some ''http {}''))))
        = [ACreate ''/tmp/nginx-cfg123456789'', AWrite ''/tmp/nginx-cfg123456789'' ''events {}'',
           AExec ''/usr/sbin/nginx'' [''-t'', ''-c'', ''/tmp/nginx-cfg123456789''],
           ARemove ''/tmp/nginx-cfg123456789'']
    \<and> files (snd (testTemplate nginx0 env_ok ''events {}'' (world_of (Some ''http {}''))))
        ''/tmp/nginx-cfg123456789'' = None)
   \<and> testTemplate nginx0 env_no_temp ''events {}'' (world_of (Some ''http {}''))
       = (Some (PathError ''no space left on device''), world_of (Some ''http {}''))
   \<and> fst (testTemplate nginx0 env_rejecting ''events {}'' (world_of (Some ''http {}'')))
       = Some (ErrorString (invalid_text (ExitError ''exit status 1'')
                              ''nginx: [emerg] unexpected end of file''))"
proof -
  obtain w1 where tf: "ioutil_TempFile env_ok ''nginx-cfg'' (world_of (Some ''http {}''))
      = (Inr ''/tmp/nginx-cfg123456789'', w1)"
    using TempFile_env [of env_ok] by (auto simp add: env_ok_def)
  have co: "fst (CombinedOutput env_ok (Test nginx0 ''/tmp/nginx-cfg123456789'')
                  (snd (ioutil_WriteFile env_ok ''/tmp/nginx-cfg123456789'' ''events {}'' w1)))
      = ([], None)"
    by (simp add: CombinedOutput_def env_ok_def)
  have rm: "remove_err env_ok = None" by (simp add: env_ok_def)
  have 1: "fst (testTemplate nginx0 env_ok ''events {}'' (world_of (Some ''http {}''))) = None
    \<and> trace (snd (testTemplate nginx0 env_ok ''events {}'' (world_of (Some ''http {}''))))
        = [ACreate ''/tmp/nginx-cfg123456789'', AWrite ''/tmp/nginx-cfg123456789'' ''events {}'',
           AExec ''/usr/sbin/nginx'' [''-t'', ''-c'', ''/tmp/nginx-cfg123456789''],
           ARemove ''/tmp/nginx-cfg123456789'']
    \<and> files (snd (testTemplate nginx0 env_ok ''events {}'' (world_of (Some ''http {}''))))
        ''/tmp/nginx-cfg123456789'' = None"
    using testTemplate_cleanup_and_errors [THEN conjunct1, rule_format, OF conjI [OF tf co]] rm
    by (simp add: world_of_def nginx0_def)
  obtain w1' where tf': "ioutil_TempFile env_no_temp ''nginx-cfg'' (world_of (Some ''http {}''))
      = (Inl (PathError ''no space left on device''), w1')"
    by (simp add: ioutil_TempFile_def env_no_temp_def env_ok_def)
  have 2: "testTemplate nginx0 env_no_temp ''events {}'' (world_of (Some ''http {}''))
       = (Some (PathError ''no space left on device''), world_of (Some ''http {}''))"
    using testTemplate_cleanup_and_errors [THEN conjunct2, THEN conjunct1, rule_format, OF tf']
    by simp
  obtain w1'' where tf'': "ioutil_TempFile env_rejecting ''nginx-cfg'' (world_of (Some ''http {}''))
      = (Inr ''/tmp/nginx-cfg123456789'', w1'')"
    using TempFile_env [of env_rejecting] by (auto simp add: env_rejecting_def env_ok_def)
  have co'': "fst (CombinedOutput env_rejecting (Test nginx0 ''/tmp/nginx-cfg123456789'')
                  (snd (ioutil_WriteFile env_rejecting ''/tmp/nginx-cfg123456789'' ''events {}'' w1'')))
      = (''nginx: [emerg] unexpected end of file'', Some (ExitError ''exit status 1''))"
    by (simp add: CombinedOutput_def env_rejecting_def env_ok_def)
  have 3: "fst (testTemplate nginx0 env_rejecting ''events {}'' (world_of (Some ''http {}'')))
       = Some (ErrorString (invalid_text (ExitError ''exit status 1'')
                              ''nginx: [emerg] unexpected end of file''))"
    using testTemplate_cleanup_and_errors [THEN conjunct2, THEN conjunct2, rule_format,
        OF conjI [OF tf'' co'']]
    by simp
  show ?thesis using 1 2 3 by (intro conjI) simp_all
qed

section \<open>Claims about the synchronization cycle\<close>

text \<open>
  Claim C5: for every desired state whose rendered candidate the checker rejects,
  \<^verbatim>\<open>OnUpdate\<close> (with \<^verbatim>\<open>testTemplate\<close> as the validation callback) returns an error that
  contains the checker's output. In every case the committed configuration file is
  byte-identical after the call to what it was before, and no effect of the call creates,
  writes or removes it.
\<close>

theorem OnUpdate_invalid_keeps_committed:
  "(ioutil_TempFile e ''nginx-cfg'' w = (Inr tmpfile, w1)
      \<and> fst (CombinedOutput e (Test n tmpfile)
               (snd (ioutil_WriteFile e tmpfile (t n (OnUpdate_config rc e cmap ing)) w1)))
          = (out, Some er)
    \<longrightarrow> fst (OnUpdate rc n e cmap ing w) = ([], Some (ErrorString (invalid_text er out)))
        \<and> sublist out (invalid_text er out))
   \<and> files (snd (OnUpdate rc n e cmap ing w)) cfgPath = files w cfgPath
   \<and> (\<exists>xs. trace (snd (OnUpdate rc n e cmap ing w)) = trace w @ xs
            \<and> (\<forall>a\<in>set xs. \<not> touches cfgPath a))"
proof -
  define conf where "conf = OnUpdate_config rc e cmap ing"
  have snd_eq: "snd (OnUpdate rc n e cmap ing w) = snd (testTemplate n e (t n conf) w)"
    by (simp add: OnUpdate_def Write_def Let_def conf_def split: prod.splits option.splits)
  have fst_eq: "fst (OnUpdate rc n e cmap ing w) = ([], Some err)"
    if "fst (testTemplate n e (t n conf) w) = Some err" for err
    using that
    by (auto simp add: OnUpdate_def Write_def Let_def conf_def split: prod.splits option.splits)
  have "fst (testTemplate n e (t n conf) w) = Some (ErrorString (invalid_text er out))
        \<and> sublist out (invalid_text er out)"
    if "ioutil_TempFile e ''nginx-cfg'' w = (Inr tmpfile, w1)
      \<and> fst (CombinedOutput e (Test n tmpfile) (snd (ioutil_WriteFile e tmpfile (t n conf) w1)))
          = (out, Some er)"
  proof -
    have tf: "ioutil_TempFile e ''nginx-cfg'' w = (Inr tmpfile, w1)" using that by simp
    have "fst (testTemplate n e (t n conf) w) = Some (ErrorString (invalid_text er out))"
      using that by (auto simp add: testTemplate_def Let_def split: prod.splits)
    moreover have "invalid_text er out
      = ([CHR 0x0A] @ banner @ [CHR 0x0A] @ ''Error: '' @ error_text er @ [CHR 0x0A])
         @ out @ ([CHR 0x0A] @ banner @ [CHR 0x0A])"
      by (simp add: invalid_text_def)
    then have "sublist out (invalid_text er out)" by (simp only: sublist_appendI)
    ultimately show ?thesis by simp
  qed
  then show ?thesis
    using fst_eq testTemplate_frame [of n e "t n conf" w]
    unfolding snd_eq conf_def [symmetric] by blast
qed

theorem OnUpdate_invalid_keeps_committed_witness:
  "fst (OnUpdate readConfig64 nginx0 env_rejecting cmap0 (ingress_of [''x.com''])
          (world_of (Some ''http {}'')))
     = ([], Some (ErrorString (invalid_text (ExitError ''exit status 1'')
                                 ''nginx: [emerg] unexpected end of file'')))
   \<and> files (snd (OnUpdate readConfig64 nginx0 env_rejecting cmap0 (ingress_of [''x.com''])
                   (world_of (Some ''http {}'')))) cfgPath
     = Some ''http {}''"
proof -
  obtain w1 where tf: "ioutil_TempFile env_rejecting ''nginx-cfg'' (world_of (Some ''http {}''))
      = (Inr ''/tmp/nginx-cfg123456789'', w1)"
    using TempFile_env [of env_rejecting] by (auto simp add: env_rejecting_def env_ok_def)
  have co: "fst (CombinedOutput env_rejecting (Test nginx0 ''/tmp/nginx-cfg123456789'')
                  (snd (ioutil_WriteFile env_rejecting ''/tmp/nginx-cfg123456789''
                     (t nginx0 (OnUpdate_config readConfig64 env_rejecting cmap0
                                  (ingress_of [''x.com'']))) w1)))
      = (''nginx: [emerg] unexpected end of file'', Some (ExitError ''exit status 1''))"
    by (simp add: CombinedOutput_def env_rejecting_def env_ok_def)
  have 1: "fst (OnUpdate readConfig64 nginx0 env_rejecting cmap0 (ingress_of [''x.com''])
          (world_of (Some ''http {}'')))
     = ([], Some (ErrorString (invalid_text (ExitError ''exit status 1'')
                                 ''nginx: [emerg] unexpected end of file'')))"
    using OnUpdate_invalid_keeps_committed [THEN conjunct1, rule_format, OF conjI [OF tf co]]
    by simp
  have 2: "files (snd (OnUpdate readConfig64 nginx0 env_rejecting cmap0 (ingress_of [''x.com''])
                   (world_of (Some ''http {}'')))) cfgPath
     = Some ''http {}''"
    using OnUpdate_invalid_keeps_committed [THEN conjunct2, THEN conjunct1,
        of readConfig64 nginx0 env_rejecting cmap0 "ingress_of [''x.com'']"
           "world_of (Some ''http {}'')"]
    by (simp add: world_of_cfg)
  show ?thesis using 1 2 by simp
qed

section \<open>Claims about the sizing of the hash tables\<close>

lemma sless_of_nat:
  "a < 2 ^ 63 \<Longrightarrow> b < 2 ^ 63 \<Longrightarrow> ((of_nat a :: go_int) <s of_nat b) \<longleftrightarrow> a < b"
  by (simp add: word_sless_alt sint_of_nat_small)

text \<open>
  The loop computes the length of the longest hostname and the sum of the lengths, as
  long as every length is a non-negative \<^verbatim>\<open>int\<close>.
\<close>

lemma hostnameSizes_eq:
  assumes "\<forall>srv\<in>set servers. length (Hostname srv) < 2 ^ 63" and "a < 2 ^ 63"
  shows "hostnameSizes servers (of_nat a, of_nat b)
           = (of_nat (max a (longest_hostname servers)), of_nat (b + hostname_bytes servers))"
  using assms
proof (induction servers arbitrary: a b)
  case Nil
  then show ?case by (simp add: hostname_bytes_def)
next
  case (Cons srv rest)
  let ?l = "length (Hostname srv)"
  have l: "?l < 2 ^ 63" and rest: "\<forall>s\<in>set rest. length (Hostname s) < 2 ^ 63"
    using Cons.prems(1) by simp_all
  have cmp: "((of_nat a :: go_int) <s of_nat ?l) \<longleftrightarrow> a < ?l"
    using Cons.prems(2) l by (rule sless_of_nat)
  have m: "max a ?l < 2 ^ 63" using Cons.prems(2) l by simp
  have step: "hostnameSizes (srv # rest) (of_nat a, of_nat b)
      = hostnameSizes rest (of_nat (max a ?l), of_nat (b + ?l))"
    by (simp add: cmp max_def)
  also have "\<dots> = (of_nat (max (max a ?l) (longest_hostname rest)),
                     of_nat (b + ?l + hostname_bytes rest))"
    by (rule Cons.IH [OF rest m])
  finally show ?case by (simp add: hostname_bytes_def max.assoc add.assoc)
qed

lemma longest_le_bytes: "longest_hostname servers \<le> hostname_bytes servers"
  by (induction servers) (auto simp add: hostname_bytes_def)

lemma smax_if:
  "sint (if (b :: go_int) <s x then x else b) = max (sint b) (sint x)"
  by (simp add: word_sless_alt max_def)

lemma OnUpdate_config_Cfg:
  "ServerNameHashBucketSize (Cfg (OnUpdate_config rc e cmap ing))
     = (if ServerNameHashBucketSize (rc cmap) <s nextPowerOf2 (fst (hostnameSizes (Servers ing) (0, 0)))
        then nextPowerOf2 (fst (hostnameSizes (Servers ing) (0, 0)))
        else ServerNameHashBucketSize (rc cmap))"
  "ServerNameHashMaxSize (Cfg (OnUpdate_config rc e cmap ing))
     = (if ServerNameHashMaxSize (rc cmap) <s nextPowerOf2 (snd (hostnameSizes (Servers ing) (0, 0)))
        then nextPowerOf2 (snd (hostnameSizes (Servers ing) (0, 0)))
        else ServerNameHashMaxSize (rc cmap))"
  by (simp_all add: OnUpdate_config_def Let_def split: prod.splits)

text \<open>
  Against claim C6 as stated: with no server and base values of 0, the smallest power of
  two that is at least the length 0 is 1, so the claimed values are \<open>max 0 1 = 1\<close>; the
  values that \<^verbatim>\<open>OnUpdate\<close> uses are 0.
\<close>

theorem OnUpdate_sizing_counterexample:
  "least_pow2_ge (int (longest_hostname (Servers (ingress_of [])))) 1
   \<and> least_pow2_ge (int (hostname_bytes (Servers (ingress_of [])))) 1
   \<and> sint (ServerNameHashBucketSize (Cfg (OnUpdate_config readConfig0 env_ok cmap0 (ingress_of []))))
       = 0
   \<and> sint (ServerNameHashBucketSize (Cfg (OnUpdate_config readConfig0 env_ok cmap0 (ingress_of []))))
       \<noteq> max (sint (ServerNameHashBucketSize (readConfig0 cmap0))) 1
   \<and> sint (ServerNameHashMaxSize (Cfg (OnUpdate_config readConfig0 env_ok cmap0 (ingress_of []))))
       = 0
   \<and> sint (ServerNameHashMaxSize (Cfg (OnUpdate_config readConfig0 env_ok cmap0 (ingress_of []))))
       \<noteq> max (sint (ServerNameHashMaxSize (readConfig0 cmap0))) 1"
proof -
  have "(1::int) \<le> 2 ^ j" for j :: nat by simp
  then have "least_pow2_ge 0 1"
    unfolding least_pow2_ge_def by (intro conjI exI [of _ 0] allI impI) simp_all
  moreover have "nextPowerOf2 0 = 0" by (simp add: nextPowerOf2_def)
  ultimately show ?thesis
    by (simp add: OnUpdate_config_Cfg ingress_of_def readConfig0_def hostname_bytes_def)
qed

text \<open>
  Claim C6, amended: for every server list (each hostname length a non-negative
  \<^verbatim>\<open>int\<close>) and every base configuration, the \<^verbatim>\<open>ServerNameHashBucketSize\<close> that
  \<^verbatim>\<open>OnUpdate\<close> uses is the maximum of the base value and \<^verbatim>\<open>nextPowerOf2\<close> of the byte
  length of the longest hostname, and the \<^verbatim>\<open>ServerNameHashMaxSize\<close> is the maximum of the
  base value and \<^verbatim>\<open>nextPowerOf2\<close> of the sum of the byte lengths of all hostnames. When
  some hostname is not empty and the sum is at most \<open>2 ^ 32\<close>, these two values of
  \<^verbatim>\<open>nextPowerOf2\<close> are the power-of-two ceilings; when there is no hostname byte at all
  they are 0. Sizing never lowers a base value.
\<close>

theorem OnUpdate_sizing:
  "((\<forall>srv\<in>set (Servers ing). length (Hostname srv) < 2 ^ 63)
    \<longrightarrow> sint (ServerNameHashBucketSize (Cfg (OnUpdate_config rc e cmap ing)))
          = max (sint (ServerNameHashBucketSize (rc cmap)))
                (sint (nextPowerOf2 (of_nat (longest_hostname (Servers ing)))))
        \<and> sint (ServerNameHashMaxSize (Cfg (OnUpdate_config rc e cmap ing)))
          = max (sint (ServerNameHashMaxSize (rc cmap)))
                (sint (nextPowerOf2 (of_nat (hostname_bytes (Servers ing))))))
   \<and> (1 \<le> longest_hostname (Servers ing) \<and> hostname_bytes (Servers ing) \<le> 2 ^ 32
    \<longrightarrow> least_pow2_ge (int (longest_hostname (Servers ing)))
          (sint (nextPowerOf2 (of_nat (longest_hostname (Servers ing)))))
        \<and> least_pow2_ge (int (hostname_bytes (Servers ing)))
          (sint (nextPowerOf2 (of_nat (hostname_bytes (Servers ing))))))
   \<and> (hostname_bytes (Servers ing) = 0
    \<longrightarrow> nextPowerOf2 (of_nat (longest_hostname (Servers ing))) = 0
        \<and> nextPowerOf2 (of_nat (hostname_bytes (Servers ing))) = 0)
   \<and> sint (ServerNameHashBucketSize (rc cmap))
        \<le> sint (ServerNameHashBucketSize (Cfg (OnUpdate_config rc e cmap ing)))
   \<and> sint (ServerNameHashMaxSize (rc cmap))
        \<le> sint (ServerNameHashMaxSize (Cfg (OnUpdate_config rc e cmap ing)))"
proof (intro conjI impI)
  assume len: "\<forall>srv\<in>set (Servers ing). length (Hostname srv) < 2 ^ 63"
  have "hostnameSizes (Servers ing) (of_nat 0, of_nat 0)
      = (of_nat (max 0 (longest_hostname (Servers ing))),
         of_nat (0 + hostname_bytes (Servers ing)))"
    by (rule hostnameSizes_eq [OF len]) simp
  then have hs: "hostnameSizes (Servers ing) (0, 0)
      = (of_nat (longest_hostname (Servers ing)), of_nat (hostname_bytes (Servers ing)))"
    by simp
  show "sint (ServerNameHashBucketSize (Cfg (OnUpdate_config rc e cmap ing)))
          = max (sint (ServerNameHashBucketSize (rc cmap)))
                (sint (nextPowerOf2 (of_nat (longest_hostname (Servers ing)))))"
    by (simp only: OnUpdate_config_Cfg(1) hs fst_conv smax_if)
  show "sint (ServerNameHashMaxSize (Cfg (OnUpdate_config rc e cmap ing)))
          = max (sint (ServerNameHashMaxSize (rc cmap)))
                (sint (nextPowerOf2 (of_nat (hostname_bytes (Servers ing)))))"
    by (simp only: OnUpdate_config_Cfg(2) hs snd_conv smax_if)
next
  assume a: "1 \<le> longest_hostname (Servers ing) \<and> hostname_bytes (Servers ing) \<le> 2 ^ 32"
  have ceil: "least_pow2_ge (int k) (sint (nextPowerOf2 (of_nat k)))"
    if "1 \<le> k" "k \<le> 2 ^ 32" for k :: nat
  proof -
    have "k < 2 ^ 63" using that(2) by (rule le_less_trans) simp
    then have s: "sint (of_nat k :: go_int) = int k" by (rule sint_of_nat_small)
    have "int k \<le> int (2 ^ 32)" using that(2) by (simp only: of_nat_le_iff)
    then have "1 \<le> sint (of_nat k :: go_int)" "sint (of_nat k :: go_int) \<le> 2 ^ 32"
      using that(1) by (simp_all add: s)
    then have "least_pow2_ge (sint (of_nat k :: go_int)) (sint (nextPowerOf2 (of_nat k)))"
      by (rule nextPowerOf2_least)
    then show ?thesis by (simp only: s)
  qed
  have "longest_hostname (Servers ing) \<le> 2 ^ 32"
    using a longest_le_bytes [of "Servers ing"] by (meson le_trans)
  moreover have "1 \<le> hostname_bytes (Servers ing)"
    using a longest_le_bytes [of "Servers ing"] by (meson le_trans)
  ultimately show "least_pow2_ge (int (longest_hostname (Servers ing)))
          (sint (nextPowerOf2 (of_nat (longest_hostname (Servers ing)))))"
    and "least_pow2_ge (int (hostname_bytes (Servers ing)))
          (sint (nextPowerOf2 (of_nat (hostname_bytes (Servers ing)))))"
    using a ceil by blast+
next
  assume z: "hostname_bytes (Servers ing) = 0"
  then have "longest_hostname (Servers ing) = 0"
    using longest_le_bytes [of "Servers ing"] by simp
  then show "nextPowerOf2 (of_nat (longest_hostname (Servers ing))) = 0"
    and "nextPowerOf2 (of_nat (hostname_bytes (Servers ing))) = 0"
    using z by (simp_all add: nextPowerOf2_def)
next
  show "sint (ServerNameHashBucketSize (rc cmap))
        \<le> sint (ServerNameHashBucketSize (Cfg (OnUpdate_config rc e cmap ing)))"
    by (simp add: OnUpdate_config_Cfg(1) smax_if)
  show "sint (ServerNameHashMaxSize (rc cmap))
        \<le> sint (ServerNameHashMaxSize (Cfg (OnUpdate_config rc e cmap ing)))"
    by (simp add: OnUpdate_config_Cfg(2) smax_if)
qed

theorem OnUpdate_sizing_witness:
  "longest_hostname (Servers (ingress_of [''a.com'', ''averyveryverylonghostname.example.com''])) = 37
   \<and> hostname_bytes (Servers (ingress_of [''a.com'', ''averyveryverylonghostname.example.com''])) = 42
   \<and> sint (ServerNameHashBucketSize (Cfg (OnUpdate_config readConfig64 env_ok cmap0
            (ingress_of [''a.com'', ''averyveryverylonghostname.example.com'']))))
       = max 64 (sint (nextPowerOf2 37))
   \<and> sint (ServerNameHashMaxSize (Cfg (OnUpdate_config readConfig64 env_ok cmap0
            (ingress_of [''a.com'', ''averyveryverylonghostname.example.com'']))))
       = max 32 (sint (nextPowerOf2 42))
   \<and> least_pow2_ge 37 (sint (nextPowerOf2 37))
   \<and> least_pow2_ge 42 (sint (nextPowerOf2 42))
   \<and> hostname_bytes (Servers (ingress_of [])) = 0
   \<and> nextPowerOf2 (of_nat (longest_hostname (Servers (ingress_of [])))) = 0
   \<and> nextPowerOf2 (of_nat (hostname_bytes (Servers (ingress_of [])))) = 0"
proof -
  let ?ing = "ingress_of [''a.com'', ''averyveryverylonghostname.example.com'']"
  have len: "\<forall>srv\<in>set (Servers ?ing). length (Hostname srv) < 2 ^ 63"
    by (simp add: ingress_of_def)
  have l: "longest_hostname (Servers ?ing) = 37" and b: "hostname_bytes (Servers ?ing) = 42"
    by (simp_all add: ingress_of_def hostname_bytes_def)
  have base: "ServerNameHashBucketSize (readConfig64 cmap0) = 64"
    "ServerNameHashMaxSize (readConfig64 cmap0) = 32"
    by (simp_all add: readConfig64_def)
  have small: "1 \<le> longest_hostname (Servers ?ing) \<and> hostname_bytes (Servers ?ing) \<le> 2 ^ 32"
    by (simp add: l b)
  note sizing = OnUpdate_sizing [of ?ing readConfig64 env_ok cmap0]
  have 1: "sint (ServerNameHashBucketSize (Cfg (OnUpdate_config readConfig64 env_ok cmap0 ?ing)))
       = max 64 (sint (nextPowerOf2 37))"
    and 2: "sint (ServerNameHashMaxSize (Cfg (OnUpdate_config readConfig64 env_ok cmap0 ?ing)))
       = max 32 (sint (nextPowerOf2 42))"
    using sizing [THEN conjunct1, THEN mp, OF len] by (simp_all add: l b base)
  have 3: "least_pow2_ge 37 (sint (nextPowerOf2 37))"
    and 4: "least_pow2_ge 42 (sint (nextPowerOf2 42))"
    using sizing [THEN conjunct2, THEN conjunct1, THEN mp, OF small] by (simp_all add: l b)
  have z: "hostname_bytes (Servers (ingress_of [])) = 0"
    by (simp add: ingress_of_def hostname_bytes_def)
  have 5: "nextPowerOf2 (of_nat (longest_hostname (Servers (ingress_of [])))) = 0"
    and 6: "nextPowerOf2 (of_nat (hostname_bytes (Servers (ingress_of [])))) = 0"
    using OnUpdate_sizing [of "ingress_of []" readConfig64 env_ok cmap0,
        THEN conjunct2, THEN conjunct2, THEN conjunct1, THEN mp, OF z]
    by simp_all
  show ?thesis using l b 1 2 3 4 z 5 6 by (intro conjI)
qed

end
